theory Spec2Isabelle
  imports Complex_Main "HOL-Library.AList" "HOL-Library.Sublist" "HOL-Library.Multiset"
begin

section \<open>The local image cache of fal-local (class \<open>ImageStorage\<close>)\<close>

text \<open>
  The class \<open>ImageStorage\<close> keeps one item of the browser's \<open>localStorage\<close>, under the
  key \<open>fal_local_images\<close>: the JSON text of an object that maps the URL of a remote image
  to a \<open>LocalImageData\<close> record holding the image as a data URL. This theory embeds the
  class function by function. What the class does to its surroundings is explicit:
  \<^item> the item is a value of type \<open>localStorage\<close>, passed in and returned;
  \<^item> the network, the \<open>FileReader\<close>, the storage medium's answer to a write and the clock
    are the fields of an environment record \<open>env\<close>;
  \<^item> every call of \<open>fetch\<close> is appended to a log, so that network accesses can be counted;
  \<^item> an exception is a value: a rejected promise is \<open>Inl\<close>, a failed \<open>fetch\<close> is \<open>None\<close>.
\<close>

subsection \<open>Data\<close>

text \<open>
  \<open>LocalImageData\<close>, field by field. The field \<open>size\<close> is called \<open>size_bytes\<close> here.
  \<open>downloadedAt\<close> is the text \<open>new Date().toISOString()\<close> in the source; it is represented
  by the instant it denotes, in milliseconds since the epoch, which is what
  \<open>new Date(downloadedAt).getTime()\<close> reads back from it. \<open>toISOString\<close> below gives the text.
\<close>

record LocalImageData =
  originalUrl :: string
  localDataUrl :: string
  contentType :: string
  size_bytes :: nat
  downloadedAt :: int

text \<open>
  \<open>Record<string, LocalImageData>\<close>: the properties of the object in insertion order, which
  is the order of \<open>Object.entries\<close>, \<open>Object.values\<close> and \<open>JSON.stringify\<close>. The keys are URLs;
  property names that an object inherits from \<open>Object.prototype\<close> are not URLs and are not
  modelled.
\<close>

type_synonym images = "(string \<times> LocalImageData) list"

text \<open>
  The text stored under the key: either a text on which \<open>JSON.parse\<close> throws, or the text
  \<open>JSON.stringify\<close> gave for a map of images (on which \<open>JSON.parse\<close> gives the map back).
\<close>

datatype stored = Unparsable string | Json images

type_synonym localStorage = "stored option"

datatype DOMException = QuotaExceededError | OtherError

datatype Blob = Blob (blob_type: string) (blob_bytes: "char list")

datatype Response = Response (ok: bool) (blob: "Blob option")

text \<open>
  The environment of one operation.
  \<^item> \<open>fetch url\<close>: \<open>None\<close> when the promise rejects; otherwise the response, whose \<open>blob\<close> is
    \<open>None\<close> when reading the body rejects.
  \<^item> \<open>readAsDataURL b\<close>: the data URL the \<open>FileReader\<close> produces, \<open>None\<close> when it fires
    \<open>onerror\<close>.
  \<^item> \<open>setItem_error text\<close>: \<open>None\<close> when \<open>localStorage.setItem\<close> stores \<open>text\<close>, otherwise the
    exception it throws.
  \<^item> \<open>now\<close>: the reading of the clock, \<open>new Date().getTime()\<close>; one operation sees one
    instant.
  A \<open>fetch\<close> that never settles is outside the model: the source sets no timeout.
\<close>

record env =
  fetch :: "string \<Rightarrow> Response option"
  readAsDataURL :: "Blob \<Rightarrow> string option"
  setItem_error :: "string \<Rightarrow> DOMException option"
  now :: int

record world =
  storage :: localStorage
  fetched :: "string list"

definition MAX_STORAGE_SIZE :: nat where
  "MAX_STORAGE_SIZE = 50 * 1024 * 1024"

subsection \<open>The JSON text of the map\<close>

text \<open>
  \<open>JSON.stringify\<close> on a map of images. Strings are sequences of bytes (the UTF-8 form of
  the JavaScript string), so the length of the text is the size of \<open>new Blob([text])\<close>.
  \<open>escape_char\<close> is the quoting of one character in a JSON string: the quote, the
  backslash and the control characters below \<open>0x20\<close> are escaped, every other byte is
  copied.
\<close>

definition hex_digit :: "nat \<Rightarrow> char" where
  "hex_digit d = ''0123456789abcdef'' ! d"

definition escape_char :: "char \<Rightarrow> string" where
  "escape_char c =
     (if c = CHR 0x22 then [CHR 0x5C, CHR 0x22]
      else if c = CHR 0x5C then [CHR 0x5C, CHR 0x5C]
      else if c = CHR 0x08 then [CHR 0x5C, CHR ''b'']
      else if c = CHR 0x0C then [CHR 0x5C, CHR ''f'']
      else if c = CHR 0x0A then [CHR 0x5C, CHR ''n'']
      else if c = CHR 0x0D then [CHR 0x5C, CHR ''r'']
      else if c = CHR 0x09 then [CHR 0x5C, CHR ''t'']
      else if of_char c < (32::nat)
        then [CHR 0x5C, CHR ''u'', CHR ''0'', CHR ''0'',
              hex_digit (of_char c div 16), hex_digit (of_char c mod 16)]
      else [c])"

definition quote :: "string \<Rightarrow> string" where
  "quote s = CHR 0x22 # concat (map escape_char s) @ [CHR 0x22]"

definition digit :: "nat \<Rightarrow> char" where
  "digit d = ''0123456789'' ! d"

function decimal :: "nat \<Rightarrow> string" where
  "decimal n = (if n < 10 then [digit n] else decimal (n div 10) @ [digit (n mod 10)])"
  by pat_completeness auto
termination
  by (relation "measure id") auto

declare decimal.simps [simp del]

function pad :: "nat \<Rightarrow> nat \<Rightarrow> string" where
  "pad w n = (if w = 0 then [] else pad (w - 1) (n div 10) @ [digit (n mod 10)])"
  by pat_completeness auto
termination
  by (relation "measure fst") auto

declare pad.simps [simp del]

text \<open>The civil date of a day number (days since 1970-01-01), proleptic Gregorian.\<close>

definition civil_from_days :: "int \<Rightarrow> int \<times> nat \<times> nat" where
  "civil_from_days z0 =
     (let z = z0 + 719468;
          era = z div 146097;
          doe = z - era * 146097;
          yoe = (doe - doe div 1460 + doe div 36524 - doe div 146096) div 365;
          doy = doe - (365 * yoe + yoe div 4 - yoe div 100);
          mp = (5 * doy + 2) div 153;
          d = doy - (153 * mp + 2) div 5 + 1;
          m = (if mp < 10 then mp + 3 else mp - 9);
          y = yoe + era * 400 + (if m \<le> 2 then 1 else 0)
      in (y, nat m, nat d))"

definition toISOString :: "int \<Rightarrow> string" where
  "toISOString t =
     (let ms = nat (t mod 86400000);
          (y, m, d) = civil_from_days (t div 86400000);
          year = (if 0 \<le> y \<and> y \<le> 9999 then pad 4 (nat y)
                  else (if y < 0 then ''-'' else ''+'') @ pad 6 (nat \<bar>y\<bar>))
      in year @ ''-'' @ pad 2 m @ ''-'' @ pad 2 d @ ''T'' @
         pad 2 (ms div 3600000) @ '':'' @ pad 2 (ms div 60000 mod 60) @ '':'' @
         pad 2 (ms div 1000 mod 60) @ ''.'' @ pad 3 (ms mod 1000) @ ''Z'')"

text \<open>
  One \<open>LocalImageData\<close> object, with its properties in the order in which
  \<open>downloadImageAsDataUrl\<close> creates them.
\<close>

definition entry_text :: "LocalImageData \<Rightarrow> string" where
  "entry_text e =
     ''{'' @ quote ''originalUrl'' @ '':'' @ quote (originalUrl e) @
     '','' @ quote ''localDataUrl'' @ '':'' @ quote (localDataUrl e) @
     '','' @ quote ''contentType'' @ '':'' @ quote (contentType e) @
     '','' @ quote ''size'' @ '':'' @ decimal (size_bytes e) @
     '','' @ quote ''downloadedAt'' @ '':'' @ quote (toISOString (downloadedAt e)) @ ''}''"

definition member_text :: "string \<times> LocalImageData \<Rightarrow> string" where
  "member_text p = quote (fst p) @ '':'' @ entry_text (snd p)"

fun join_commas :: "string list \<Rightarrow> string" where
  "join_commas [] = []"
| "join_commas [x] = x"
| "join_commas (x # y # ys) = x @ '','' @ join_commas (y # ys)"

definition JSON_stringify :: "images \<Rightarrow> string" where
  "JSON_stringify m = ''{'' @ join_commas (map member_text m) @ ''}''"

fun item_text :: "stored \<Rightarrow> string" where
  "item_text (Unparsable s) = s"
| "item_text (Json m) = JSON_stringify m"

text \<open>\<open>JSON.parse\<close> on the stored text: \<open>None\<close> when it throws.\<close>

fun JSON_parse :: "stored \<Rightarrow> images option" where
  "JSON_parse (Unparsable s) = None"
| "JSON_parse (Json m) = Some m"

subsection \<open>Reading the store\<close>

text \<open>
  \<open>getStoredImages\<close>: \<open>stored ? JSON.parse(stored) : {}\<close> inside \<open>try\<close>, with \<open>{}\<close> in the
  \<open>catch\<close>. The empty text is falsy.
\<close>

definition getStoredImages :: "localStorage \<Rightarrow> images" where
  "getStoredImages ls =
     (case ls of
        None \<Rightarrow> []
      | Some stored \<Rightarrow>
          if item_text stored = [] then []
          else (case JSON_parse stored of None \<Rightarrow> [] | Some m \<Rightarrow> m))"

text \<open>\<open>getStoredImage\<close>: \<open>storedImages[originalUrl] || null\<close>.\<close>

definition getStoredImage :: "localStorage \<Rightarrow> string \<Rightarrow> LocalImageData option" where
  "getStoredImage ls url = map_of (getStoredImages ls) url"

text \<open>\<open>getCurrentStorageSize\<close>: the \<open>reduce\<close> over \<open>Object.values\<close>, adding \<open>img.size\<close>.\<close>

definition getCurrentStorageSize :: "localStorage \<Rightarrow> nat" where
  "getCurrentStorageSize ls =
     foldl (\<lambda>total img. total + size_bytes img) 0 (map snd (getStoredImages ls))"

text \<open>\<open>getActualStorageSize\<close>: \<open>stored ? new Blob([stored]).size : 0\<close>.\<close>

definition getActualStorageSize :: "localStorage \<Rightarrow> nat" where
  "getActualStorageSize ls =
     (case ls of None \<Rightarrow> 0 | Some stored \<Rightarrow> length (item_text stored))"

subsection \<open>Writing the store\<close>

text \<open>
  \<open>localStorage.setItem(STORAGE_KEY, JSON.stringify(m))\<close>: the new item, or the exception
  of the medium.
\<close>

definition setItem :: "env \<Rightarrow> images \<Rightarrow> DOMException + localStorage" where
  "setItem E m =
     (case setItem_error E (JSON_stringify m) of
        None \<Rightarrow> Inr (Some (Json m))
      | Some err \<Rightarrow> Inl err)"

text \<open>
  \<open>cleanupOldImages\<close>. The loop runs over the entries the map had at the start and deletes
  from the map by key. A failed write is caught and logged: the item stays as it was.
\<close>

definition cleanup_step ::
  "int \<Rightarrow> int \<Rightarrow> string \<times> LocalImageData \<Rightarrow> images \<times> bool \<Rightarrow> images \<times> bool" where
  "cleanup_step t maxAge entry acc =
     (if t - downloadedAt (snd entry) > maxAge
      then (AList.delete (fst entry) (fst acc), True)
      else acc)"

definition cleanupOldImages :: "env \<Rightarrow> int \<Rightarrow> localStorage \<Rightarrow> localStorage" where
  "cleanupOldImages E maxAge ls =
     (let storedImages = getStoredImages ls;
          (remaining, hasChanges) =
             fold (cleanup_step (now E) maxAge) storedImages (storedImages, False)
      in if hasChanges
         then (case setItem E remaining of Inr ls' \<Rightarrow> ls' | Inl err \<Rightarrow> ls)
         else ls)"

text \<open>
  \<open>Array.prototype.sort\<close> with a comparator: the stable sort, here by insertion. The
  comparator of \<open>freeUpSpace\<close> puts the larger image first and, among images of one size,
  the older one.
\<close>

fun insert_by :: "('a \<Rightarrow> 'a \<Rightarrow> int) \<Rightarrow> 'a \<Rightarrow> 'a list \<Rightarrow> 'a list" where
  "insert_by cmp x [] = [x]"
| "insert_by cmp x (y # ys) =
     (if cmp x y \<le> 0 then x # y # ys else y # insert_by cmp x ys)"

definition Array_sort :: "('a \<Rightarrow> 'a \<Rightarrow> int) \<Rightarrow> 'a list \<Rightarrow> 'a list" where
  "Array_sort cmp xs = foldr (insert_by cmp) xs []"

definition compare_size_age ::
  "string \<times> LocalImageData \<Rightarrow> string \<times> LocalImageData \<Rightarrow> int" where
  "compare_size_age a b =
     (let sizeDiff = int (size_bytes (snd b)) - int (size_bytes (snd a))
      in if sizeDiff \<noteq> 0 then sizeDiff
         else downloadedAt (snd a) - downloadedAt (snd b))"

text \<open>
  The loop of \<open>freeUpSpace\<close> over the sorted entries; the state is the map, \<open>freedBytes\<close>
  and \<open>hasChanges\<close>. It stops at the first entry at which \<open>freedBytes >= targetBytes\<close>.
\<close>

fun free_loop ::
  "int \<Rightarrow> images \<Rightarrow> images \<times> nat \<times> bool \<Rightarrow> images \<times> nat \<times> bool" where
  "free_loop targetBytes [] st = st"
| "free_loop targetBytes (entry # rest) (storedImages, freedBytes, hasChanges) =
     (if int freedBytes \<ge> targetBytes then (storedImages, freedBytes, hasChanges)
      else free_loop targetBytes rest
             (AList.delete (fst entry) storedImages,
              freedBytes + size_bytes (snd entry), True))"

definition freeUpSpace :: "env \<Rightarrow> int \<Rightarrow> localStorage \<Rightarrow> localStorage" where
  "freeUpSpace E targetBytes ls =
     (let storedImages = getStoredImages ls;
          imageEntries = Array_sort compare_size_age storedImages;
          (remaining, freedBytes, hasChanges) =
             free_loop targetBytes imageEntries (storedImages, 0, False)
      in if hasChanges
         then (case setItem E remaining of Inr ls' \<Rightarrow> ls' | Inl err \<Rightarrow> ls)
         else ls)"

text \<open>
  \<open>performMaintenanceCleanup\<close>. \<open>maxSize * 0.8\<close> and \<open>maxSize * 0.6\<close> are \<open>41943040\<close> and
  \<open>31457280\<close>, also in double precision; the comparisons are written without fractions.
\<close>

definition DAY_MS :: int where
  "DAY_MS = 24 * 60 * 60 * 1000"

definition over_80_percent :: "nat \<Rightarrow> bool" where
  "over_80_percent actualSize \<longleftrightarrow> 10 * actualSize > 8 * MAX_STORAGE_SIZE"

definition performMaintenanceCleanup :: "env \<Rightarrow> localStorage \<Rightarrow> localStorage" where
  "performMaintenanceCleanup E ls =
     (let actualSize = getActualStorageSize ls
      in if over_80_percent actualSize then
           (let ls1 = cleanupOldImages E (7 * DAY_MS) ls;
                newSize = getActualStorageSize ls1;
                ls2 = (if over_80_percent newSize
                       then cleanupOldImages E (3 * DAY_MS) ls1 else ls1);
                finalSize = getActualStorageSize ls2
            in if over_80_percent finalSize
               then freeUpSpace E (int finalSize - (int MAX_STORAGE_SIZE * 6) div 10) ls2
               else ls2)
         else ls)"

text \<open>
  One attempt of \<open>storeImage\<close>: read the map, assign the entry under its URL, write.
  An assignment to a key the object has keeps the key's place; a new key goes last.
\<close>

definition store_attempt ::
  "env \<Rightarrow> LocalImageData \<Rightarrow> localStorage \<Rightarrow> DOMException + localStorage" where
  "store_attempt E imageData ls =
     setItem E (AList.update (originalUrl imageData) imageData (getStoredImages ls))"

text \<open>
  \<open>storeImage\<close>: the result and the item afterwards. Only a \<open>QuotaExceededError\<close> of the
  first attempt starts the ladder; the three inner \<open>catch\<close> clauses take any exception.
\<close>

definition storeImage :: "env \<Rightarrow> LocalImageData \<Rightarrow> localStorage \<Rightarrow> bool \<times> localStorage" where
  "storeImage E imageData ls =
     (case store_attempt E imageData ls of
        Inr ls' \<Rightarrow> (True, ls')
      | Inl OtherError \<Rightarrow> (False, ls)
      | Inl QuotaExceededError \<Rightarrow>
          (let ls1 = cleanupOldImages E (3 * DAY_MS) ls
           in case store_attempt E imageData ls1 of
                Inr ls' \<Rightarrow> (True, ls')
              | Inl retryError \<Rightarrow>
                  (let targetFreeSpace =
                         max (int (size_bytes imageData) * 2) (10 * 1024 * 1024);
                       ls2 = freeUpSpace E targetFreeSpace ls1
                   in case store_attempt E imageData ls2 of
                        Inr ls' \<Rightarrow> (True, ls')
                      | Inl finalError \<Rightarrow>
                          (let ls3 = cleanupOldImages E (1 * DAY_MS) ls2
                           in case store_attempt E imageData ls3 of
                                Inr ls' \<Rightarrow> (True, ls')
                              | Inl lastError \<Rightarrow> (False, ls3)))))"


subsection \<open>Download and resolve\<close>

text \<open>
  \<open>downloadImageAsDataUrl\<close>. The \<open>catch\<close> turns a rejected \<open>fetch\<close>, a response that is not
  \<open>ok\<close> and a body that cannot be read into \<open>null\<close>. The promise around the \<open>FileReader\<close>
  is returned without \<open>await\<close>, so its rejection goes to the caller: \<open>Inl ()\<close>.
\<close>

definition downloadImageAsDataUrl ::
  "env \<Rightarrow> string \<Rightarrow> world \<Rightarrow> (unit + LocalImageData option) \<times> world" where
  "downloadImageAsDataUrl E imageUrl w =
     (let w' = w\<lparr>fetched := fetched w @ [imageUrl]\<rparr>
      in case fetch E imageUrl of
           None \<Rightarrow> (Inr None, w')
         | Some response \<Rightarrow>
             if \<not> ok response then (Inr None, w')
             else (case blob response of
                     None \<Rightarrow> (Inr None, w')
                   | Some b \<Rightarrow>
                       (let contentType = (if blob_type b = [] then ''image/png''
                                           else blob_type b);
                            size = length (blob_bytes b);
                            currentSize = getCurrentStorageSize (storage w')
                        in if currentSize + size > MAX_STORAGE_SIZE then (Inr None, w')
                           else (case readAsDataURL E b of
                                   None \<Rightarrow> (Inl (), w')
                                 | Some dataUrl \<Rightarrow>
                                     (Inr (Some \<lparr>originalUrl = imageUrl,
                                                 localDataUrl = dataUrl,
                                                 contentType = contentType,
                                                 size_bytes = size,
                                                 downloadedAt = now E\<rparr>), w')))))"

text \<open>
  \<open>downloadAndStoreImage\<close>, the operation the specification calls \<open>resolve\<close>: the string
  returned and the world afterwards. The outer \<open>catch\<close> returns the URL.
\<close>

definition downloadAndStoreImage :: "env \<Rightarrow> string \<Rightarrow> world \<Rightarrow> string \<times> world" where
  "downloadAndStoreImage E imageUrl w =
     (case getStoredImage (storage w) imageUrl of
        Some existingImage \<Rightarrow> (localDataUrl existingImage, w)
      | None \<Rightarrow>
          (let w1 = w\<lparr>storage := performMaintenanceCleanup E (storage w)\<rparr>;
               (downloaded, w2) = downloadImageAsDataUrl E imageUrl w1
           in case downloaded of
                Inl error \<Rightarrow> (imageUrl, w2)
              | Inr None \<Rightarrow> (imageUrl, w2)
              | Inr (Some imageData) \<Rightarrow>
                  (let (stored, ls') = storeImage E imageData (storage w2)
                   in (if stored then localDataUrl imageData else localDataUrl imageData,
                       w2\<lparr>storage := ls'\<rparr>))))"

subsection \<open>Statistics\<close>

text \<open>
  \<open>x.toFixed(digits)\<close> read back by \<open>parseFloat\<close>, for \<open>x \<ge> 0\<close>: the multiple of
  \<open>10\<^sup>-\<^sup>d\<^sup>i\<^sup>g\<^sup>i\<^sup>t\<^sup>s\<close> nearest to \<open>x\<close>, the larger one of two. The quotients are exact
  rationals here, not doubles.
\<close>

definition toFixed :: "nat \<Rightarrow> rat \<Rightarrow> rat" where
  "toFixed digits x = of_int \<lfloor>x * 10 ^ digits + 1 / 2\<rfloor> / 10 ^ digits"

definition compare_age :: "LocalImageData \<Rightarrow> LocalImageData \<Rightarrow> int" where
  "compare_age a b = downloadedAt a - downloadedAt b"

record StorageStats =
  imageCount :: nat
  totalSize :: nat
  totalSizeMB :: rat
  actualStorageSize :: nat
  actualStorageSizeMB :: rat
  storageUsagePercent :: rat
  oldestImage :: "int option"
  newestImage :: "int option"

definition getStorageStats :: "localStorage \<Rightarrow> StorageStats" where
  "getStorageStats ls =
     (let images = map snd (getStoredImages ls);
          totalSize = foldl (\<lambda>total img. total + size_bytes img) 0 images;
          actualStorageSize = getActualStorageSize ls;
          sorted = Array_sort compare_age images;
          oldest = (if length images > 0 then Some (downloadedAt (hd sorted)) else None);
          newest = (if length images > 0 then Some (downloadedAt (last sorted)) else None)
      in \<lparr>imageCount = length images,
          totalSize = totalSize,
          totalSizeMB = toFixed 2 (of_nat totalSize / (1024 * 1024)),
          actualStorageSize = actualStorageSize,
          actualStorageSizeMB = toFixed 2 (of_nat actualStorageSize / (1024 * 1024)),
          storageUsagePercent =
            toFixed 1 (of_nat actualStorageSize / of_nat MAX_STORAGE_SIZE * 100),
          oldestImage = oldest,
          newestImage = newest\<rparr>)"

subsection \<open>The caller in \<open>ImageMigration\<close>\<close>




subsection \<open>A call that only reads\<close>


subsection \<open>Notions used in the statements\<close>

text \<open>
  The order the comparator of \<open>freeUpSpace\<close> sorts by, as a relation: \<open>a\<close> may stand
  before \<open>b\<close> when it is larger, or as large and not younger.
\<close>

definition larger_then_older ::
  "string \<times> LocalImageData \<Rightarrow> string \<times> LocalImageData \<Rightarrow> bool" where
  "larger_then_older a b \<longleftrightarrow>
     size_bytes (snd b) < size_bytes (snd a) \<or>
     (size_bytes (snd a) = size_bytes (snd b) \<and> downloadedAt (snd a) \<le> downloadedAt (snd b))"

text \<open>
  \<open>freed_by entries\<close>: what the loop of \<open>freeUpSpace\<close> adds to \<open>freedBytes\<close> when it deletes
  \<open>entries\<close>. \<open>without_keys_of entries m\<close>: the map after \<open>delete storedImages[url]\<close> for
  the URL of each of \<open>entries\<close>. \<open>text_bytes m\<close>: the lengths of the properties' texts,
  added up.
\<close>

definition freed_by :: "images \<Rightarrow> nat" where
  "freed_by entries = sum_list (map (\<lambda>entry. size_bytes (snd entry)) entries)"

definition without_keys_of :: "images \<Rightarrow> images \<Rightarrow> images" where
  "without_keys_of entries m = filter (\<lambda>p. fst p \<notin> fst ` set entries) m"

definition text_bytes :: "images \<Rightarrow> nat" where
  "text_bytes m = sum_list (map (\<lambda>p. length (member_text p)) m)"

text \<open>
  The number of entries the loop of \<open>freeUpSpace\<close> deletes when it starts with
  \<open>freedBytes\<close> already freed: it follows the loop's own test.
\<close>

fun evict_count :: "int \<Rightarrow> nat \<Rightarrow> images \<Rightarrow> nat" where
  "evict_count targetBytes freedBytes [] = 0"
| "evict_count targetBytes freedBytes (entry # rest) =
     (if int freedBytes \<ge> targetBytes then 0
      else Suc (evict_count targetBytes (freedBytes + size_bytes (snd entry)) rest))"

text \<open>
  The keys \<open>cleanupOldImages\<close> deletes at instant \<open>t\<close>: those of the entries older than
  \<open>maxAge\<close>.
\<close>

definition expired_keys :: "int \<Rightarrow> int \<Rightarrow> images \<Rightarrow> string set" where
  "expired_keys t maxAge m = fst ` {e \<in> set m. t - downloadedAt (snd e) > maxAge}"

text \<open>
  \<open>evicted_from ls ls'\<close>: the item \<open>ls'\<close> is \<open>ls\<close>, or \<open>ls\<close> holds a map and \<open>ls'\<close> holds
  the entries of that map that pass a filter. This is how the eviction routines change
  the item.
\<close>

definition evicted_from :: "localStorage \<Rightarrow> localStorage \<Rightarrow> bool" where
  "evicted_from ls ls' \<longleftrightarrow>
     ls' = ls \<or> (\<exists>m P. ls = Some (Json m) \<and> ls' = Some (Json (filter P m)))"



subsection \<open>Environments, worlds and stores of the examples\<close>

text \<open>
  A three-byte PNG payload, its data URL, and the entry the download step makes of it
  at instant \<open>t0\<close> for the URL \<open>cat_url\<close>; the world of a fresh browser profile.
\<close>

definition t0 :: int where
  "t0 = 1700000000000"

definition png :: Blob where
  "png = Blob ''image/png'' ''abc''"

definition png_dataUrl :: string where
  "png_dataUrl = ''data:image/png;base64,YWJj''"

definition cat_url :: string where
  "cat_url = ''https://cdn.example/cat.png''"


definition img_new :: LocalImageData where
  "img_new = \<lparr>originalUrl = cat_url, localDataUrl = png_dataUrl,
              contentType = ''image/png'', size_bytes = 3, downloadedAt = t0\<rparr>"

definition w_fresh :: world where
  "w_fresh = \<lparr>storage = None, fetched = []\<rparr>"

text \<open>
  Environments: everything works; the network is down; the server answers 404; the
  \<open>FileReader\<close> fails; the medium refuses every write; the medium has a quota, taking a
  text of at most \<open>capacity\<close> bytes and refusing a longer one with \<open>QuotaExceededError\<close>.
\<close>

definition E_online :: env where
  "E_online =
     \<lparr>fetch = (\<lambda>url. Some (Response True (Some png))),
      readAsDataURL = (\<lambda>b. if b = png then Some png_dataUrl else None),
      setItem_error = (\<lambda>text. None),
      now = t0\<rparr>"

definition E_offline :: env where
  "E_offline = E_online\<lparr>fetch := (\<lambda>url. None)\<rparr>"



definition E_full :: env where
  "E_full = E_online\<lparr>setItem_error := (\<lambda>text. Some QuotaExceededError)\<rparr>"


text \<open>
  The entries of the specification's example: A of 5 bytes and one day old, B of 3 bytes
  and five days old, C of 3 bytes and one day old, inserted in the order C, A, B.
\<close>

definition img_A :: LocalImageData where
  "img_A = \<lparr>originalUrl = ''https://x/a'', localDataUrl = ''data:a'',
            contentType = ''image/png'', size_bytes = 5, downloadedAt = t0 - DAY_MS\<rparr>"

definition img_B :: LocalImageData where
  "img_B = \<lparr>originalUrl = ''https://x/b'', localDataUrl = ''data:b'',
            contentType = ''image/png'', size_bytes = 3, downloadedAt = t0 - 5 * DAY_MS\<rparr>"

definition img_C :: LocalImageData where
  "img_C = \<lparr>originalUrl = ''https://x/c'', localDataUrl = ''data:c'',
            contentType = ''image/png'', size_bytes = 3, downloadedAt = t0 - DAY_MS\<rparr>"

definition images_CAB :: images where
  "images_CAB = [(''https://x/c'', img_C), (''https://x/a'', img_A), (''https://x/b'', img_B)]"

text \<open>
  Large examples: a PNG payload of \<open>3 * k\<close> zero bytes, its data URL (the base-64 text of
  three zero bytes is \<open>AAAA\<close>) and the entry \<open>downloadImageAsDataUrl\<close> makes of it at instant
  \<open>t\<close>. \<open>store_recent\<close> holds 30 MB and 3 MB downloaded one and two days ago;
  \<open>store_aged\<close> holds 3 MB downloaded eight days ago and 30 MB downloaded yesterday. The
  text of either map is 44,000,344 bytes long. In \<open>E_payload k\<close> every URL delivers the
  payload of \<open>3 * k\<close> zero bytes and the medium takes every write.
\<close>

definition zeros :: "nat \<Rightarrow> Blob" where
  "zeros k = Blob ''image/png'' (replicate (3 * k) (CHR 0x00))"

definition zeros_dataUrl :: "nat \<Rightarrow> string" where
  "zeros_dataUrl k = ''data:image/png;base64,'' @ replicate (4 * k) CHR ''A''"

definition img_zeros :: "string \<Rightarrow> nat \<Rightarrow> int \<Rightarrow> LocalImageData" where
  "img_zeros url k t =
     \<lparr>originalUrl = url, localDataUrl = zeros_dataUrl k, contentType = ''image/png'',
      size_bytes = 3 * k, downloadedAt = t\<rparr>"

definition img_big :: LocalImageData where
  "img_big = img_zeros ''https://x/big'' 10000000 (t0 - DAY_MS)"

definition img_mid :: LocalImageData where
  "img_mid = img_zeros ''https://x/mid'' 1000000 (t0 - 2 * DAY_MS)"

definition img_old :: LocalImageData where
  "img_old = img_zeros ''https://x/old'' 1000000 (t0 - 8 * DAY_MS)"


definition store_aged :: images where
  "store_aged = [(''https://x/old'', img_old), (''https://x/big'', img_big)]"

definition E_payload :: "nat \<Rightarrow> env" where
  "E_payload k =
     \<lparr>fetch = (\<lambda>url. Some (Response True (Some (zeros k)))),
      readAsDataURL = (\<lambda>b. if b = zeros k then Some (zeros_dataUrl k) else None),
      setItem_error = (\<lambda>text. None),
      now = t0\<rparr>"

section \<open>Auxiliary facts\<close>

subsection \<open>Reading the item\<close>

lemma JSON_stringify_not_empty: "JSON_stringify m \<noteq> []"
  by (simp add: JSON_stringify_def)

lemma getStoredImages_None: "getStoredImages None = []"
  by (simp add: getStoredImages_def)

lemma getStoredImages_Unparsable: "getStoredImages (Some (Unparsable s)) = []"
  by (simp add: getStoredImages_def)

lemma getStoredImages_Json: "getStoredImages (Some (Json m)) = m"
  by (simp add: getStoredImages_def JSON_stringify_not_empty)

lemma getStoredImage_None: "getStoredImage None url = None"
  by (simp add: getStoredImage_def getStoredImages_None)

lemma freed_by_Nil: "freed_by [] = 0"
  by (simp add: freed_by_def)

lemma freed_by_Cons: "freed_by (e # es) = size_bytes (snd e) + freed_by es"
  by (simp add: freed_by_def)


subsection \<open>The stable sort\<close>

lemma Array_sort_Nil: "Array_sort cmp [] = []"
  by (simp add: Array_sort_def)

lemma mset_insert_by: "mset (insert_by cmp x xs) = add_mset x (mset xs)"
  by (induction xs) auto

lemma mset_Array_sort: "mset (Array_sort cmp xs) = mset xs"
  by (induction xs) (auto simp add: Array_sort_def mset_insert_by)

lemma set_insert_by: "set (insert_by cmp x xs) = insert x (set xs)"
  by (induction xs) auto


lemma length_Array_sort: "length (Array_sort cmp xs) = length xs"
  by (metis mset_Array_sort size_mset)

lemma compare_size_age_le:
  "compare_size_age a b \<le> 0 \<longleftrightarrow> larger_then_older a b"
  by (auto simp add: compare_size_age_def larger_then_older_def Let_def)

lemma larger_then_older_total: "larger_then_older a b \<or> larger_then_older b a"
  by (auto simp add: larger_then_older_def)

lemma larger_then_older_trans:
  "larger_then_older a b \<Longrightarrow> larger_then_older b c \<Longrightarrow> larger_then_older a c"
  by (auto simp add: larger_then_older_def)

lemma sorted_insert_by:
  "sorted_wrt larger_then_older xs \<Longrightarrow>
   sorted_wrt larger_then_older (insert_by compare_size_age x xs)"
proof (induction xs)
  case Nil
  then show ?case by simp
next
  case (Cons y ys)
  show ?case
  proof (cases "compare_size_age x y \<le> 0")
    case True
    then have xy: "larger_then_older x y" by (simp add: compare_size_age_le)
    with Cons.prems have "\<forall>z\<in>set ys. larger_then_older x z"
      by (auto intro: larger_then_older_trans)
    with True xy Cons.prems show ?thesis by simp
  next
    case False
    then have "\<not> larger_then_older x y" by (simp add: compare_size_age_le)
    then have "larger_then_older y x" using larger_then_older_total by blast
    with False Cons show ?thesis by (auto simp add: set_insert_by)
  qed
qed

lemma sorted_Array_sort:
  "sorted_wrt larger_then_older (Array_sort compare_size_age xs)"
  by (induction xs) (simp_all add: Array_sort_def sorted_insert_by)

subsection \<open>Rounding and statistics\<close>






lemma stats_actualStorageSize:
  "actualStorageSize (getStorageStats ls) = getActualStorageSize ls"
  by (simp add: getStorageStats_def Let_def)

lemma stats_imageCount:
  "imageCount (getStorageStats ls) = length (getStoredImages ls)"
  by (simp add: getStorageStats_def Let_def)

lemma stats_storageUsagePercent:
  "storageUsagePercent (getStorageStats ls) =
     toFixed 1 (of_nat (getActualStorageSize ls) / of_nat MAX_STORAGE_SIZE * 100)"
  by (simp add: getStorageStats_def Let_def)




subsection \<open>The loops of the eviction routines\<close>

lemma cleanupOldImages_empty:
  "getStoredImages ls = [] \<Longrightarrow> cleanupOldImages E maxAge ls = ls"
  by (simp add: cleanupOldImages_def)

lemma freeUpSpace_empty:
  "getStoredImages ls = [] \<Longrightarrow> freeUpSpace E targetBytes ls = ls"
  by (simp add: freeUpSpace_def Array_sort_Nil)

lemma without_keys_of_Nil: "without_keys_of [] m = m"
  by (simp add: without_keys_of_def)

lemma without_keys_of_delete:
  "without_keys_of es (AList.delete (fst e) m) = without_keys_of (e # es) m"
  by (induction m) (auto simp add: without_keys_of_def)


lemma free_loop_eq:
  "free_loop t es (m, f, ch) =
     (without_keys_of (take (evict_count t f es) es) m,
      f + freed_by (take (evict_count t f es) es),
      ch \<or> 0 < evict_count t f es)"
proof (induction es arbitrary: m f ch)
  case Nil
  then show ?case by (simp add: without_keys_of_Nil freed_by_Nil)
next
  case (Cons e es)
  then show ?case
    by (simp add: without_keys_of_Nil freed_by_Nil freed_by_Cons without_keys_of_delete)
qed

lemma evict_count_le: "evict_count t f es \<le> length es"
  by (induction es arbitrary: f) auto

lemma evict_count_reaches:
  "evict_count t f es = length es \<or> t \<le> int (f + freed_by (take (evict_count t f es) es))"
proof (induction es arbitrary: f)
  case Nil
  then show ?case by simp
next
  case (Cons e es)
  from Cons.IH [of "f + size_bytes (snd e)"] show ?case
    by (auto simp add: freed_by_Cons add.assoc)
qed

lemma evict_count_minimal:
  "j < evict_count t f es \<Longrightarrow> int (f + freed_by (take j es)) < t"
proof (induction es arbitrary: f j)
  case Nil
  then show ?case by simp
next
  case (Cons e es)
  show ?case
  proof (cases j)
    case 0
    with Cons.prems show ?thesis
      by (auto simp add: freed_by_Nil split: if_splits)
  next
    case (Suc i)
    with Cons.prems have "i < evict_count t (f + size_bytes (snd e)) es"
      by (auto split: if_splits)
    then have "int (f + size_bytes (snd e) + freed_by (take i es)) < t"
      by (rule Cons.IH)
    with Suc show ?thesis by (simp add: freed_by_Cons add.assoc)
  qed
qed


lemma freeUpSpace_eq:
  "freeUpSpace E t ls =
     (let m = getStoredImages ls;
          victims = take (evict_count t 0 (Array_sort compare_size_age m))
                         (Array_sort compare_size_age m)
      in if victims = [] then ls
         else (case setItem_error E (JSON_stringify (without_keys_of victims m)) of
                 None \<Rightarrow> Some (Json (without_keys_of victims m))
               | Some err \<Rightarrow> ls))"
proof -
  have "take k xs = [] \<longleftrightarrow> \<not> 0 < k" if "k \<le> length xs" for k and xs :: images
    using that by (cases xs) auto
  then show ?thesis
    by (simp add: freeUpSpace_def Let_def free_loop_eq setItem_def evict_count_le
        split: option.splits)
qed

lemma cleanup_fold_eq:
  "fold (cleanup_step t a) es (m, ch) =
     (filter (\<lambda>p. fst p \<notin> fst ` {e \<in> set es. t - downloadedAt (snd e) > a}) m,
      ch \<or> (\<exists>e\<in>set es. t - downloadedAt (snd e) > a))"
proof (induction es arbitrary: m ch)
  case Nil
  then show ?case by simp
next
  case (Cons e es)
  have "filter (\<lambda>p. fst p \<notin> fst ` {x \<in> set es. a < t - downloadedAt (snd x)})
          (AList.delete (fst e) m) =
        filter (\<lambda>p. fst p \<notin> fst ` {x \<in> set (e # es). a < t - downloadedAt (snd x)}) m"
    if "a < t - downloadedAt (snd e)"
    using that by (induction m) (auto simp add: AList.delete_eq)
  moreover have "{x \<in> set (e # es). a < t - downloadedAt (snd x)} =
      {x \<in> set es. a < t - downloadedAt (snd x)}"
    if "\<not> a < t - downloadedAt (snd e)"
    using that by auto
  ultimately show ?case
    using Cons.IH by (simp add: cleanup_step_def)
qed

lemma expired_keys_filter:
  "expired_keys t a m = set (map fst (filter (\<lambda>e. t - downloadedAt (snd e) > a) m))"
  by (auto simp add: expired_keys_def)

lemma cleanupOldImages_eq:
  "cleanupOldImages E a ls =
     (let m = getStoredImages ls;
          remaining = filter (\<lambda>p. fst p \<notin> expired_keys (now E) a m) m
      in if \<exists>e\<in>set m. now E - downloadedAt (snd e) > a
         then (case setItem_error E (JSON_stringify remaining) of
                 None \<Rightarrow> Some (Json remaining)
               | Some err \<Rightarrow> ls)
         else ls)"
  by (simp add: cleanupOldImages_def Let_def cleanup_fold_eq setItem_def expired_keys_def
      split: option.splits)

lemma without_keys_of_distinct:
  assumes d: "distinct (map fst m)" and sub: "set vs \<subseteq> set m"
  shows "without_keys_of vs m = filter (\<lambda>p. p \<notin> set vs) m"
proof -
  have "fst p \<in> fst ` set vs \<longleftrightarrow> p \<in> set vs" if "p \<in> set m" for p
  proof
    assume "fst p \<in> fst ` set vs"
    then obtain q where q: "q \<in> set vs" "fst q = fst p" by auto
    with sub have "q \<in> set m" by auto
    with d that q have "q = p" by (metis eq_key_imp_eq_value prod.collapse)
    with q show "p \<in> set vs" by simp
  qed auto
  then show ?thesis
    unfolding without_keys_of_def by (intro filter_cong) auto
qed

lemma mset_prefix_removed:
  assumes d: "distinct (map fst m)" and perm: "mset es = mset m"
  shows "mset (without_keys_of (take k es) m) + mset (take k es) = mset m"
proof -
  let ?vs = "take k es"
  from d have dm: "distinct m" by (rule distinct_map [THEN iffD1, THEN conjunct1])
  with perm have "distinct es" by (metis mset_eq_imp_distinct_iff)
  then have dv: "distinct ?vs" by simp
  have sub: "set ?vs \<subseteq> set m"
    using perm set_take_subset [of k es] by (metis mset_eq_setD)
  have "mset ?vs = mset (filter (\<lambda>p. p \<in> set ?vs) m)"
  proof (rule set_eq_iff_mset_eq_distinct [THEN iffD1])
    show "distinct ?vs" by (rule dv)
    show "distinct (filter (\<lambda>p. p \<in> set ?vs) m)" using dm by simp
    show "set ?vs = set (filter (\<lambda>p. p \<in> set ?vs) m)" using sub by auto
  qed
  moreover have "without_keys_of ?vs m = filter (\<lambda>p. p \<notin> set ?vs) m"
    using d sub by (rule without_keys_of_distinct)
  ultimately show ?thesis
    by (simp add: union_commute)
qed

subsection \<open>What an eviction frees\<close>







subsection \<open>Items after evictions\<close>

lemma evicted_from_refl: "evicted_from ls ls"
  by (simp add: evicted_from_def)

lemma evicted_from_trans:
  "evicted_from a b \<Longrightarrow> evicted_from b c \<Longrightarrow> evicted_from a c"
  unfolding evicted_from_def
  by (elim disjE exE conjE) (auto simp add: filter_filter [simplified] intro: exI)

lemma evicted_from_images:
  "evicted_from ls ls' \<Longrightarrow> \<exists>P. getStoredImages ls' = filter P (getStoredImages ls)"
proof -
  assume "evicted_from ls ls'"
  then consider "ls' = ls" | m P where "ls = Some (Json m)" "ls' = Some (Json (filter P m))"
    unfolding evicted_from_def by blast
  then show ?thesis
  proof cases
    case 1
    then have "getStoredImages ls' = filter (\<lambda>p. True) (getStoredImages ls)" by simp
    then show ?thesis by blast
  next
    case 2
    then show ?thesis by (auto simp add: getStoredImages_Json)
  qed
qed

lemma cleanupOldImages_evicts: "evicted_from ls (cleanupOldImages E a ls)"
proof (cases "getStoredImages ls = []")
  case True
  then show ?thesis by (simp add: cleanupOldImages_empty evicted_from_refl)
next
  case False
  then obtain m where "ls = Some (Json m)"
    by (cases ls rule: option.exhaust; simp add: getStoredImages_None)
       (metis getStoredImages_Unparsable stored.exhaust)
  then show ?thesis
    by (auto simp add: cleanupOldImages_eq Let_def evicted_from_def getStoredImages_Json
        split: option.splits)
qed

lemma freeUpSpace_evicts: "evicted_from ls (freeUpSpace E t ls)"
proof (cases "getStoredImages ls = []")
  case True
  then show ?thesis by (simp add: freeUpSpace_empty evicted_from_refl)
next
  case False
  then obtain m where "ls = Some (Json m)"
    by (cases ls rule: option.exhaust; simp add: getStoredImages_None)
       (metis getStoredImages_Unparsable stored.exhaust)
  then show ?thesis
    by (auto simp add: freeUpSpace_eq Let_def evicted_from_def getStoredImages_Json
        without_keys_of_def split: option.splits)
qed

lemma maintenance_small:
  "\<not> over_80_percent (getActualStorageSize ls) \<Longrightarrow> performMaintenanceCleanup E ls = ls"
  by (simp add: performMaintenanceCleanup_def)

lemma maintenance_None: "performMaintenanceCleanup E None = None"
  by (simp add: maintenance_small getActualStorageSize_def over_80_percent_def)

lemma maintenance_evicts: "evicted_from ls (performMaintenanceCleanup E ls)"
proof -
  define ls1 where "ls1 = cleanupOldImages E (7 * DAY_MS) ls"
  define ls2 where "ls2 = (if over_80_percent (getActualStorageSize ls1)
                           then cleanupOldImages E (3 * DAY_MS) ls1 else ls1)"
  define ls3 where "ls3 = (if over_80_percent (getActualStorageSize ls2)
      then freeUpSpace E (int (getActualStorageSize ls2) - (int MAX_STORAGE_SIZE * 6) div 10) ls2
      else ls2)"
  have "evicted_from ls ls1"
    by (simp add: ls1_def cleanupOldImages_evicts)
  moreover have "evicted_from ls1 ls2"
    by (simp add: ls2_def cleanupOldImages_evicts evicted_from_refl)
  moreover have "evicted_from ls2 ls3"
    by (simp add: ls3_def freeUpSpace_evicts evicted_from_refl)
  ultimately have "evicted_from ls ls3"
    by (blast intro: evicted_from_trans)
  moreover have "performMaintenanceCleanup E ls =
      (if over_80_percent (getActualStorageSize ls) then ls3 else ls)"
    by (simp add: performMaintenanceCleanup_def Let_def ls1_def ls2_def ls3_def)
  ultimately show ?thesis
    by (simp add: evicted_from_refl)
qed

lemma evicted_from_miss:
  "evicted_from ls ls' \<Longrightarrow> getStoredImage ls url = None \<Longrightarrow> getStoredImage ls' url = None"
proof -
  assume "evicted_from ls ls'" and miss: "getStoredImage ls url = None"
  then obtain P where "getStoredImages ls' = filter P (getStoredImages ls)"
    using evicted_from_images by blast
  with miss show ?thesis
    by (auto simp add: getStoredImage_def map_of_eq_None_iff)
qed

subsection \<open>The length of the stored text\<close>

lemma length_join_commas:
  "length (join_commas xs) = sum_list (map length xs) + (length xs - 1)"
  by (induction xs rule: join_commas.induct) simp_all

lemma length_JSON_stringify:
  "length (JSON_stringify m) = 2 + text_bytes m + (length m - 1)"
  by (simp add: JSON_stringify_def length_join_commas text_bytes_def comp_def)







subsection \<open>A medium that refuses every write\<close>

lemma setItem_refused:
  assumes "\<forall>text. setItem_error E text \<noteq> None"
  shows "(case setItem E m of Inr ls' \<Rightarrow> f ls' | Inl err \<Rightarrow> g err) =
     g (the (setItem_error E (JSON_stringify m)))"
proof (cases "setItem_error E (JSON_stringify m)")
  case None
  with assms show ?thesis by blast
next
  case (Some err)
  then show ?thesis by (simp add: setItem_def)
qed

lemma cleanupOldImages_refused:
  "\<forall>text. setItem_error E text \<noteq> None \<Longrightarrow> cleanupOldImages E maxAge ls = ls"
  by (simp add: cleanupOldImages_def Let_def setItem_refused split: prod.splits)

lemma freeUpSpace_refused:
  "\<forall>text. setItem_error E text \<noteq> None \<Longrightarrow> freeUpSpace E targetBytes ls = ls"
  by (simp add: freeUpSpace_def Let_def setItem_refused split: prod.splits)

lemma maintenance_refused:
  "\<forall>text. setItem_error E text \<noteq> None \<Longrightarrow> performMaintenanceCleanup E ls = ls"
  by (simp add: performMaintenanceCleanup_def Let_def cleanupOldImages_refused
      freeUpSpace_refused)

lemma storeImage_refused:
  "\<forall>text. setItem_error E text \<noteq> None \<Longrightarrow> storeImage E d ls = (False, ls)"
  by (simp add: storeImage_def store_attempt_def Let_def cleanupOldImages_refused
      freeUpSpace_refused setItem_refused split: DOMException.splits)

subsection \<open>Storing an entry\<close>

lemma store_attempt_empty:
  "getStoredImages ls = [] \<Longrightarrow>
   store_attempt E d ls =
     (case setItem_error E (JSON_stringify [(originalUrl d, d)]) of
        None \<Rightarrow> Inr (Some (Json [(originalUrl d, d)]))
      | Some err \<Rightarrow> Inl err)"
  by (simp add: store_attempt_def setItem_def)

lemma storeImage_empty:
  "getStoredImages ls = [] \<Longrightarrow>
   storeImage E d ls =
     (case setItem_error E (JSON_stringify [(originalUrl d, d)]) of
        None \<Rightarrow> (True, Some (Json [(originalUrl d, d)]))
      | Some err \<Rightarrow> (False, ls))"
  by (simp add: storeImage_def cleanupOldImages_empty freeUpSpace_empty store_attempt_empty
      split: option.splits DOMException.splits)

lemma store_attempt_Inr:
  "store_attempt E d ls = Inr ls' \<Longrightarrow> getStoredImage ls' (originalUrl d) = Some d"
  by (auto simp add: store_attempt_def setItem_def getStoredImage_def getStoredImages_Json
      update_conv' split: option.splits)

lemma storeImage_outcome:
  assumes "storeImage E d ls = (b, ls')"
  shows "(b \<and> getStoredImage ls' (originalUrl d) = Some d) \<or> (\<not> b \<and> evicted_from ls ls')"
proof -
  define ls1 where "ls1 = cleanupOldImages E (3 * DAY_MS) ls"
  define ls2 where
    "ls2 = freeUpSpace E (max (int (size_bytes d) * 2) (10 * 1024 * 1024)) ls1"
  define ls3 where "ls3 = cleanupOldImages E (1 * DAY_MS) ls2"
  have "evicted_from ls ls1"
    by (simp add: ls1_def cleanupOldImages_evicts)
  moreover have "evicted_from ls1 ls2"
    by (simp add: ls2_def freeUpSpace_evicts)
  moreover have "evicted_from ls2 ls3"
    by (simp add: ls3_def cleanupOldImages_evicts)
  ultimately have ev: "evicted_from ls ls3"
    by (blast intro: evicted_from_trans)
  have "storeImage E d ls =
      (case store_attempt E d ls of
         Inr ls' \<Rightarrow> (True, ls')
       | Inl OtherError \<Rightarrow> (False, ls)
       | Inl QuotaExceededError \<Rightarrow>
           (case store_attempt E d ls1 of
              Inr ls' \<Rightarrow> (True, ls')
            | Inl retryError \<Rightarrow>
                (case store_attempt E d ls2 of
                   Inr ls' \<Rightarrow> (True, ls')
                 | Inl finalError \<Rightarrow>
                     (case store_attempt E d ls3 of
                        Inr ls' \<Rightarrow> (True, ls')
                      | Inl lastError \<Rightarrow> (False, ls3)))))"
    unfolding storeImage_def Let_def ls1_def ls2_def ls3_def by (rule refl)
  with assms ev show ?thesis
    by (auto simp add: evicted_from_refl store_attempt_Inr
        split: sum.splits DOMException.splits)
qed

subsection \<open>Download and resolve\<close>


lemma download_fetched:
  "snd (downloadImageAsDataUrl E url w) = w\<lparr>fetched := fetched w @ [url]\<rparr>"
  by (simp add: downloadImageAsDataUrl_def Let_def split: option.splits)

lemma download_Some:
  "fst (downloadImageAsDataUrl E url w) = Inr (Some d) \<Longrightarrow>
   \<exists>r b. fetch E url = Some r \<and> ok r \<and> blob r = Some b \<and>
         readAsDataURL E b = Some (localDataUrl d) \<and> originalUrl d = url \<and>
         size_bytes d = length (blob_bytes b) \<and>
         getCurrentStorageSize (storage w) + length (blob_bytes b) \<le> MAX_STORAGE_SIZE"
  by (auto simp add: downloadImageAsDataUrl_def Let_def split: option.splits if_splits)

lemma download_ok:
  "fetch E url = Some r \<Longrightarrow> ok r \<Longrightarrow> blob r = Some b \<Longrightarrow>
   getCurrentStorageSize (storage w) + length (blob_bytes b) \<le> MAX_STORAGE_SIZE \<Longrightarrow>
   readAsDataURL E b = Some dataUrl \<Longrightarrow>
   downloadImageAsDataUrl E url w =
     (Inr (Some \<lparr>originalUrl = url, localDataUrl = dataUrl,
                  contentType = (if blob_type b = [] then ''image/png'' else blob_type b),
                  size_bytes = length (blob_bytes b), downloadedAt = now E\<rparr>),
      w\<lparr>fetched := fetched w @ [url]\<rparr>)"
  by (simp add: downloadImageAsDataUrl_def Let_def)

lemma download_too_large:
  "fetch E url = Some r \<Longrightarrow> ok r \<Longrightarrow> blob r = Some b \<Longrightarrow>
   getCurrentStorageSize (storage w) + length (blob_bytes b) > MAX_STORAGE_SIZE \<Longrightarrow>
   downloadImageAsDataUrl E url w = (Inr None, w\<lparr>fetched := fetched w @ [url]\<rparr>)"
  by (simp add: downloadImageAsDataUrl_def Let_def)

lemma download_unreadable:
  "fetch E url = Some r \<Longrightarrow> ok r \<Longrightarrow> blob r = Some b \<Longrightarrow>
   getCurrentStorageSize (storage w) + length (blob_bytes b) \<le> MAX_STORAGE_SIZE \<Longrightarrow>
   readAsDataURL E b = None \<Longrightarrow>
   downloadImageAsDataUrl E url w = (Inl (), w\<lparr>fetched := fetched w @ [url]\<rparr>)"
  by (simp add: downloadImageAsDataUrl_def Let_def)

lemma resolve_hit:
  "getStoredImage (storage w) url = Some e \<Longrightarrow>
   downloadAndStoreImage E url w = (localDataUrl e, w)"
  by (simp add: downloadAndStoreImage_def)

lemma resolve_miss:
  "getStoredImage (storage w) url = None \<Longrightarrow>
   downloadAndStoreImage E url w =
     (let w1 = w\<lparr>storage := performMaintenanceCleanup E (storage w)\<rparr>;
          w2 = w1\<lparr>fetched := fetched w @ [url]\<rparr>
      in case fst (downloadImageAsDataUrl E url w1) of
           Inl error \<Rightarrow> (url, w2)
         | Inr None \<Rightarrow> (url, w2)
         | Inr (Some imageData) \<Rightarrow>
             (localDataUrl imageData,
              w2\<lparr>storage := snd (storeImage E imageData (storage w1))\<rparr>))"
proof -
  assume miss: "getStoredImage (storage w) url = None"
  let ?w1 = "w\<lparr>storage := performMaintenanceCleanup E (storage w)\<rparr>"
  obtain r w2 where d: "downloadImageAsDataUrl E url ?w1 = (r, w2)"
    by (cases "downloadImageAsDataUrl E url ?w1")
  with download_fetched [of E url ?w1]
  have w2: "w2 = ?w1\<lparr>fetched := fetched w @ [url]\<rparr>" by simp
  show ?thesis
    by (simp add: downloadAndStoreImage_def miss d w2 Let_def
        split: prod.splits sum.splits option.splits)
qed


subsection \<open>The examples\<close>


lemmas json_eval =
  JSON_stringify_def member_text_def entry_text_def quote_def escape_char_def
  toISOString_def civil_from_days_def pad.simps decimal.simps digit_def Let_def


lemma sorted_images_CAB:
  "Array_sort compare_size_age images_CAB =
     [(''https://x/a'', img_A), (''https://x/b'', img_B), (''https://x/c'', img_C)]"
  by (simp add: images_CAB_def img_A_def img_B_def img_C_def Array_sort_def
      compare_size_age_def DAY_MS_def t0_def)

lemma download_example:
  assumes "fetch E = (\<lambda>url. Some (Response True (Some png)))"
    and "readAsDataURL E png = Some png_dataUrl" and "now E = t0"
  shows "downloadImageAsDataUrl E cat_url \<lparr>storage = None, fetched = fs\<rparr> =
     (Inr (Some img_new), \<lparr>storage = None, fetched = fs @ [cat_url]\<rparr>)"
  using assms
  by (simp add: downloadImageAsDataUrl_def Let_def png_def getCurrentStorageSize_def
      getStoredImages_None MAX_STORAGE_SIZE_def img_new_def)

lemma resolve_example:
  assumes "fetch E = (\<lambda>url. Some (Response True (Some png)))"
    and "readAsDataURL E png = Some png_dataUrl" and "now E = t0"
  shows "downloadAndStoreImage E cat_url \<lparr>storage = None, fetched = fs\<rparr> =
     (png_dataUrl,
      \<lparr>storage = snd (storeImage E img_new None), fetched = fs @ [cat_url]\<rparr>)"
proof -
  have "getStoredImage (storage \<lparr>storage = None, fetched = fs\<rparr>) cat_url = None"
    by (simp add: getStoredImage_None)
  then show ?thesis
    using download_example [OF assms, of fs]
    by (simp add: resolve_miss Let_def maintenance_None img_new_def)
qed

lemmas zeros_defs =
  img_big_def img_mid_def img_old_def img_zeros_def zeros_dataUrl_def t0_def DAY_MS_def

lemma length_member_big: "length (member_text (''https://x/big'', img_big)) = 40000171"
  by (simp add: json_eval zeros_defs cong: let_weak_cong)

lemma length_member_mid: "length (member_text (''https://x/mid'', img_mid)) = 4000170"
  by (simp add: json_eval zeros_defs cong: let_weak_cong)

lemma length_member_old: "length (member_text (''https://x/old'', img_old)) = 4000170"
  by (simp add: json_eval zeros_defs cong: let_weak_cong)

lemmas length_member_zeros = length_member_big length_member_mid length_member_old

lemma size_zeros:
  "size_bytes img_big = 30000000" "size_bytes img_mid = 3000000" "size_bytes img_old = 3000000"
  by (simp_all add: zeros_defs)

lemma age_zeros:
  "downloadedAt img_big = t0 - DAY_MS" "downloadedAt img_mid = t0 - 2 * DAY_MS"
  "downloadedAt img_old = t0 - 8 * DAY_MS"
  by (simp_all add: img_big_def img_mid_def img_old_def img_zeros_def)


lemma actual_store_aged: "getActualStorageSize (Some (Json store_aged)) = 44000344"
  by (simp add: getActualStorageSize_def length_JSON_stringify text_bytes_def store_aged_def
      length_member_zeros)




lemma maintenance_store_aged:
  assumes "now E = t0" and "\<And>s. setItem_error E s = None"
  shows "performMaintenanceCleanup E (Some (Json store_aged)) =
     Some (Json [(''https://x/big'', img_big)])"
proof -
  have "expired_keys t0 (7 * DAY_MS) store_aged = {''https://x/old''}"
    by (simp add: expired_keys_filter store_aged_def age_zeros DAY_MS_def)
  then have "filter (\<lambda>p. fst p \<notin> expired_keys t0 (7 * DAY_MS) store_aged) store_aged =
      [(''https://x/big'', img_big)]"
    by (simp add: store_aged_def)
  moreover have "\<exists>e\<in>set store_aged. t0 - downloadedAt (snd e) > 7 * DAY_MS"
    by (simp add: store_aged_def age_zeros DAY_MS_def)
  ultimately have "cleanupOldImages E (7 * DAY_MS) (Some (Json store_aged)) =
      Some (Json [(''https://x/big'', img_big)])"
    using assms by (simp add: cleanupOldImages_eq Let_def getStoredImages_Json)
  moreover have "getActualStorageSize (Some (Json [(''https://x/big'', img_big)])) = 40000173"
    by (simp add: getActualStorageSize_def length_JSON_stringify text_bytes_def
        length_member_zeros)
  ultimately show ?thesis
    by (simp add: performMaintenanceCleanup_def Let_def actual_store_aged over_80_percent_def
        MAX_STORAGE_SIZE_def)
qed


lemma E_payload_simps:
  "fetch (E_payload k) url = Some (Response True (Some (zeros k)))"
  "setItem_error (E_payload k) s = None"
  "now (E_payload k) = t0"
  "length (blob_bytes (zeros k)) = 3 * k"
  by (simp_all add: E_payload_def zeros_def)

section \<open>The claims\<close>

subsection \<open>Resolve fails open\<close>



subsection \<open>Inputs that are not remote URLs\<close>




subsection \<open>The payload is returned whether or not it was persisted\<close>

text \<open>
  Claim C3. Take a URL that is not in the store, whose \<open>fetch\<close> succeeds with a readable
  body, and whose encoding runs and succeeds: the download step encodes only a payload
  that its size check admits (the other case is claim C4), and the \<open>FileReader\<close> gives
  a data URL. Then \<open>downloadAndStoreImage\<close> returns this data URL, whatever \<open>storeImage\<close>
  answers. When the medium refuses every write, the call still returns the data URL,
  the item after the call is the item before it, and it holds no entry for the URL.
\<close>

theorem resolve_returns_payload_persisted_or_not:
  "getStoredImage (storage w) url = None \<and>
   fetch E url = Some r \<and> ok r \<and> blob r = Some b \<and>
   getCurrentStorageSize (performMaintenanceCleanup E (storage w)) + length (blob_bytes b)
     \<le> MAX_STORAGE_SIZE \<and>
   readAsDataURL E b = Some dataUrl
   \<longrightarrow> fst (downloadAndStoreImage E url w) = dataUrl \<and>
       ((\<forall>text. setItem_error E text \<noteq> None)
          \<longrightarrow> storage (snd (downloadAndStoreImage E url w)) = storage w \<and>
              getStoredImage (storage (snd (downloadAndStoreImage E url w))) url = None)"
proof (intro impI, elim conjE)
  assume miss: "getStoredImage (storage w) url = None"
    and f: "fetch E url = Some r" "ok r" "blob r = Some b"
    and cap: "getCurrentStorageSize (performMaintenanceCleanup E (storage w))
                + length (blob_bytes b) \<le> MAX_STORAGE_SIZE"
    and enc: "readAsDataURL E b = Some dataUrl"
  let ?w1 = "w\<lparr>storage := performMaintenanceCleanup E (storage w)\<rparr>"
  let ?d = "\<lparr>originalUrl = url, localDataUrl = dataUrl,
             contentType = (if blob_type b = [] then ''image/png'' else blob_type b),
             size_bytes = length (blob_bytes b), downloadedAt = now E\<rparr>"
  from f cap enc have d: "fst (downloadImageAsDataUrl E url ?w1) = Inr (Some ?d)"
    by (simp add: download_ok)
  have res: "downloadAndStoreImage E url w =
      (dataUrl, ?w1\<lparr>fetched := fetched w @ [url],
                     storage := snd (storeImage E ?d (storage ?w1))\<rparr>)"
    by (simp add: resolve_miss [OF miss] d Let_def)
  have refused: "storage (snd (downloadAndStoreImage E url w)) = storage w \<and>
        getStoredImage (storage (snd (downloadAndStoreImage E url w))) url = None"
    if "\<forall>text. setItem_error E text \<noteq> None"
    using that by (simp add: res maintenance_refused storeImage_refused miss)
  have "fst (downloadAndStoreImage E url w) = dataUrl"
    by (simp add: res)
  with refused show "fst (downloadAndStoreImage E url w) = dataUrl \<and>
       ((\<forall>text. setItem_error E text \<noteq> None)
          \<longrightarrow> storage (snd (downloadAndStoreImage E url w)) = storage w \<and>
              getStoredImage (storage (snd (downloadAndStoreImage E url w))) url = None)"
    by blast
qed

theorem resolve_returns_payload_persisted_or_not_witness:
  "fst (downloadAndStoreImage E_full cat_url w_fresh) = png_dataUrl \<and>
   storage (snd (downloadAndStoreImage E_full cat_url w_fresh)) = None \<and>
   getStoredImage (storage (snd (downloadAndStoreImage E_full cat_url w_fresh))) cat_url = None \<and>
   fst (downloadAndStoreImage E_online cat_url w_fresh) = png_dataUrl"
proof -
  have miss: "getStoredImage (storage w_fresh) cat_url = None"
    by (simp add: w_fresh_def getStoredImage_None)
  have cap: "getCurrentStorageSize (performMaintenanceCleanup E (storage w_fresh))
               + length (blob_bytes png) \<le> MAX_STORAGE_SIZE" for E
    by (simp add: w_fresh_def maintenance_None getCurrentStorageSize_def getStoredImages_None
        png_def MAX_STORAGE_SIZE_def)
  have full: "fetch E_full cat_url = Some (Response True (Some png))"
    "readAsDataURL E_full png = Some png_dataUrl" "\<forall>text. setItem_error E_full text \<noteq> None"
    by (simp_all add: E_full_def E_online_def)
  have online: "fetch E_online cat_url = Some (Response True (Some png))"
    "readAsDataURL E_online png = Some png_dataUrl"
    by (simp_all add: E_online_def)
  from resolve_returns_payload_persisted_or_not
         [of w_fresh cat_url E_full "Response True (Some png)" png png_dataUrl]
       miss cap [of E_full] full
  have a: "fst (downloadAndStoreImage E_full cat_url w_fresh) = png_dataUrl \<and>
     storage (snd (downloadAndStoreImage E_full cat_url w_fresh)) = storage w_fresh \<and>
     getStoredImage (storage (snd (downloadAndStoreImage E_full cat_url w_fresh))) cat_url = None"
    by simp
  from resolve_returns_payload_persisted_or_not
         [of w_fresh cat_url E_online "Response True (Some png)" png png_dataUrl]
       miss cap [of E_online] online
  have b: "fst (downloadAndStoreImage E_online cat_url w_fresh) = png_dataUrl"
    by simp
  have "storage w_fresh = None" by (simp add: w_fresh_def)
  with a b show ?thesis by (simp add: getStoredImage_None)
qed

subsection \<open>The size check of the download step\<close>

text \<open>
  Claim C4, amended. \<open>MAX_STORAGE_SIZE\<close> is 52,428,800. Take a URL that is not in the
  store and whose \<open>fetch\<close> succeeds with a readable body. If the sizes of the entries that
  the maintenance cleanup has left, plus the size of the payload, exceed
  \<open>MAX_STORAGE_SIZE\<close>, then \<open>downloadImageAsDataUrl\<close> returns \<open>null\<close> whatever the
  \<open>FileReader\<close> would do (the payload is not encoded) and leaves the item alone,
  \<open>downloadAndStoreImage\<close> returns the URL it was given, and the item after the call is
  the item the maintenance cleanup left: the item before the call, whenever its text
  was not above 80% of the budget.
\<close>

theorem download_refused_over_budget:
  "MAX_STORAGE_SIZE = 52428800 \<and>
   (getStoredImage (storage w) url = None \<and>
    fetch E url = Some r \<and> ok r \<and> blob r = Some b \<and>
    getCurrentStorageSize (performMaintenanceCleanup E (storage w)) + length (blob_bytes b)
      > MAX_STORAGE_SIZE
    \<longrightarrow>
      (\<forall>f. downloadImageAsDataUrl (E\<lparr>readAsDataURL := f\<rparr>) url
              (w\<lparr>storage := performMaintenanceCleanup E (storage w)\<rparr>) =
            (Inr None, w\<lparr>storage := performMaintenanceCleanup E (storage w),
                          fetched := fetched w @ [url]\<rparr>)) \<and>
      downloadAndStoreImage E url w =
        (url, w\<lparr>storage := performMaintenanceCleanup E (storage w),
                 fetched := fetched w @ [url]\<rparr>) \<and>
      (\<not> over_80_percent (getActualStorageSize (storage w))
         \<longrightarrow> storage (snd (downloadAndStoreImage E url w)) = storage w))"
proof (intro conjI impI, goal_cases)
  case 1
  show ?case by (simp add: MAX_STORAGE_SIZE_def)
next
  case 2
  let ?w1 = "w\<lparr>storage := performMaintenanceCleanup E (storage w)\<rparr>"
  from 2 have f: "fetch E url = Some r" "ok r" "blob r = Some b"
    and cap: "getCurrentStorageSize (storage ?w1) + length (blob_bytes b) > MAX_STORAGE_SIZE"
    by simp_all
  show ?case
  proof
    fix f
    have "fetch (E\<lparr>readAsDataURL := f\<rparr>) url = Some r"
      using f(1) by simp
    then show "downloadImageAsDataUrl (E\<lparr>readAsDataURL := f\<rparr>) url ?w1 =
        (Inr None, w\<lparr>storage := performMaintenanceCleanup E (storage w),
                      fetched := fetched w @ [url]\<rparr>)"
      using f(2,3) cap by (simp add: download_too_large)
  qed
next
  case 3
  let ?w1 = "w\<lparr>storage := performMaintenanceCleanup E (storage w)\<rparr>"
  from 3 have miss: "getStoredImage (storage w) url = None"
    and f: "fetch E url = Some r" "ok r" "blob r = Some b"
    and cap: "getCurrentStorageSize (storage ?w1) + length (blob_bytes b) > MAX_STORAGE_SIZE"
    by simp_all
  from f cap have "downloadImageAsDataUrl E url ?w1 =
      (Inr None, ?w1\<lparr>fetched := fetched ?w1 @ [url]\<rparr>)"
    by (rule download_too_large)
  then show ?case
    by (simp add: resolve_miss [OF miss] Let_def)
next
  case 4
  let ?w1 = "w\<lparr>storage := performMaintenanceCleanup E (storage w)\<rparr>"
  from 4 have miss: "getStoredImage (storage w) url = None"
    and f: "fetch E url = Some r" "ok r" "blob r = Some b"
    and cap: "getCurrentStorageSize (storage ?w1) + length (blob_bytes b) > MAX_STORAGE_SIZE"
    and small: "\<not> over_80_percent (getActualStorageSize (storage w))"
    by simp_all
  from f cap have "downloadImageAsDataUrl E url ?w1 =
      (Inr None, ?w1\<lparr>fetched := fetched ?w1 @ [url]\<rparr>)"
    by (rule download_too_large)
  then show ?case
    using small by (simp add: resolve_miss [OF miss] Let_def maintenance_small)
qed

theorem download_refused_over_budget_witness:
  "length (blob_bytes (zeros 17476267)) = 52428801 \<and>
   downloadAndStoreImage (E_payload 17476267) cat_url w_fresh =
     (cat_url, \<lparr>storage = None, fetched = [cat_url]\<rparr>)"
proof -
  let ?E = "E_payload 17476267"
  have "getStoredImage (storage w_fresh) cat_url = None"
    by (simp add: w_fresh_def getStoredImage_None)
  moreover have "fetch ?E cat_url = Some (Response True (Some (zeros 17476267)))"
    by (rule E_payload_simps)
  moreover have "getCurrentStorageSize (performMaintenanceCleanup ?E (storage w_fresh))
      + length (blob_bytes (zeros 17476267)) > MAX_STORAGE_SIZE"
    by (simp add: w_fresh_def maintenance_None getCurrentStorageSize_def getStoredImages_None
        E_payload_simps MAX_STORAGE_SIZE_def)
  ultimately have "downloadAndStoreImage ?E cat_url w_fresh =
      (cat_url, w_fresh\<lparr>storage := performMaintenanceCleanup ?E (storage w_fresh),
                         fetched := fetched w_fresh @ [cat_url]\<rparr>)"
    using download_refused_over_budget
      [of w_fresh cat_url ?E "Response True (Some (zeros 17476267))" "zeros 17476267"]
    by simp
  then show ?thesis
    by (simp add: w_fresh_def maintenance_None E_payload_simps)
qed

text \<open>
  Claim C4 as stated fails in its last part when the maintenance cleanup, which runs
  before the download, evicts something. \<open>store_aged\<close> fills 83.9% of the budget; the
  URL is not in it, its payload of 24 MB is fetched, and the sizes in the store plus the
  payload are 57,000,000. The call returns the URL, but the entry that was eight days
  old is gone from the persisted map.
\<close>

theorem maintenance_before_size_check_counterexample:
  "getStoredImage (Some (Json store_aged)) cat_url = None \<and>
   fetch (E_payload 8000000) cat_url = Some (Response True (Some (zeros 8000000))) \<and>
   getCurrentStorageSize (Some (Json store_aged)) + length (blob_bytes (zeros 8000000))
     = 57000000 \<and>
   MAX_STORAGE_SIZE = 52428800 \<and>
   downloadAndStoreImage (E_payload 8000000) cat_url
       \<lparr>storage = Some (Json store_aged), fetched = []\<rparr> =
     (cat_url, \<lparr>storage = Some (Json [(''https://x/big'', img_big)]), fetched = [cat_url]\<rparr>) \<and>
   length store_aged = 2"
proof -
  let ?E = "E_payload 8000000"
  let ?w = "\<lparr>storage = Some (Json store_aged), fetched = []\<rparr>"
  have miss: "getStoredImage (Some (Json store_aged)) cat_url = None"
    by (simp add: getStoredImage_def getStoredImages_Json store_aged_def cat_url_def)
  have sum: "getCurrentStorageSize (Some (Json store_aged)) + length (blob_bytes (zeros 8000000))
      = 57000000"
    by (simp add: getCurrentStorageSize_def getStoredImages_Json store_aged_def size_zeros
        E_payload_simps)
  have m: "performMaintenanceCleanup ?E (Some (Json store_aged)) =
      Some (Json [(''https://x/big'', img_big)])"
    by (rule maintenance_store_aged) (simp_all add: E_payload_simps)
  have "getCurrentStorageSize (Some (Json [(''https://x/big'', img_big)]))
      + length (blob_bytes (zeros 8000000)) > MAX_STORAGE_SIZE"
    by (simp add: getCurrentStorageSize_def getStoredImages_Json size_zeros E_payload_simps
        MAX_STORAGE_SIZE_def)
  then have "downloadImageAsDataUrl ?E cat_url (?w\<lparr>storage := Some (Json [(''https://x/big'', img_big)])\<rparr>) =
      (Inr None, \<lparr>storage = Some (Json [(''https://x/big'', img_big)]), fetched = [cat_url]\<rparr>)"
    using download_too_large
      [of ?E cat_url "Response True (Some (zeros 8000000))" "zeros 8000000"
          "?w\<lparr>storage := Some (Json [(''https://x/big'', img_big)])\<rparr>"]
    by (simp add: E_payload_simps)
  with miss m have "downloadAndStoreImage ?E cat_url ?w =
      (cat_url, \<lparr>storage = Some (Json [(''https://x/big'', img_big)]), fetched = [cat_url]\<rparr>)"
    by (simp add: resolve_miss Let_def)
  with miss sum show ?thesis
    by (simp add: E_payload_simps MAX_STORAGE_SIZE_def store_aged_def)
qed

subsection \<open>The ladder of \<open>storeImage\<close>\<close>



subsection \<open>The eviction order of \<open>freeUpSpace\<close>\<close>

text \<open>
  Claim C6. \<open>freeUpSpace\<close> sorts the entries of the map so that a larger entry stands
  before a smaller one and, among entries of one size, an older before a younger one;
  the sorted list is a rearrangement of the map. There is a number \<open>k\<close> such that the
  first \<open>k\<close> sorted entries free at least \<open>targetBytes\<close> or are all the entries, while
  no shorter prefix frees \<open>targetBytes\<close>; the loop deletes the keys of exactly these \<open>k\<close>
  entries from the map, so that (the keys of an object being distinct) the map is split
  into the prefix and what remains. If \<open>k\<close> is 0 nothing is written; otherwise the
  remaining map is written, and it becomes the item when the medium takes the write.
  For the entries A (5 bytes, one day old), B (3 bytes, five days old) and C (3 bytes,
  one day old) and a target of 5 bytes, the loop deletes A alone.
\<close>

theorem freeUpSpace_evicts_minimal_prefix:
  "mset (Array_sort compare_size_age (getStoredImages ls)) = mset (getStoredImages ls) \<and>
   sorted_wrt larger_then_older (Array_sort compare_size_age (getStoredImages ls)) \<and>
   (\<exists>k \<le> length (getStoredImages ls).
      (k = length (getStoredImages ls) \<or>
       targetBytes \<le> int (freed_by (take k (Array_sort compare_size_age (getStoredImages ls))))) \<and>
      (\<forall>j<k. int (freed_by (take j (Array_sort compare_size_age (getStoredImages ls))))
               < targetBytes) \<and>
      fst (free_loop targetBytes (Array_sort compare_size_age (getStoredImages ls))
             (getStoredImages ls, 0, False)) =
        without_keys_of (take k (Array_sort compare_size_age (getStoredImages ls)))
          (getStoredImages ls) \<and>
      (distinct (map fst (getStoredImages ls)) \<longrightarrow>
         mset (without_keys_of (take k (Array_sort compare_size_age (getStoredImages ls)))
                 (getStoredImages ls)) +
         mset (take k (Array_sort compare_size_age (getStoredImages ls))) =
         mset (getStoredImages ls)) \<and>
      freeUpSpace E targetBytes ls =
        (if k = 0 then ls
         else (case setItem_error E
                      (JSON_stringify
                         (without_keys_of
                            (take k (Array_sort compare_size_age (getStoredImages ls)))
                            (getStoredImages ls))) of
                 None \<Rightarrow>
                   Some (Json (without_keys_of
                                 (take k (Array_sort compare_size_age (getStoredImages ls)))
                                 (getStoredImages ls)))
               | Some err \<Rightarrow> ls))) \<and>
   fst (free_loop 5 (Array_sort compare_size_age images_CAB) (images_CAB, 0, False)) =
     [(''https://x/c'', img_C), (''https://x/b'', img_B)]"
proof -
  define m where "m = getStoredImages ls"
  define es where "es = Array_sort compare_size_age m"
  define k where "k = evict_count targetBytes 0 es"
  have len: "length es = length m"
    by (simp add: es_def length_Array_sort)
  have perm: "mset es = mset m"
    by (simp add: es_def mset_Array_sort)
  have srt: "sorted_wrt larger_then_older es"
    by (simp add: es_def sorted_Array_sort)
  have k_le: "k \<le> length m"
    using evict_count_le [of targetBytes 0 es] by (simp add: k_def len)
  have reach: "k = length m \<or> targetBytes \<le> int (freed_by (take k es))"
    using evict_count_reaches [of targetBytes 0 es] by (simp add: k_def len)
  have minimal: "\<forall>j<k. int (freed_by (take j es)) < targetBytes"
    using evict_count_minimal [of _ targetBytes 0 es] by (simp add: k_def)
  have loop: "fst (free_loop targetBytes es (m, 0, False)) = without_keys_of (take k es) m"
    by (simp add: free_loop_eq k_def)
  have exact: "distinct (map fst m) \<longrightarrow>
      mset (without_keys_of (take k es) m) + mset (take k es) = mset m"
    using perm by (simp add: mset_prefix_removed)
  have ne: "take k es = [] \<longleftrightarrow> k = 0"
    using k_le len by (cases es) auto
  have run: "freeUpSpace E targetBytes ls =
      (if k = 0 then ls
       else (case setItem_error E (JSON_stringify (without_keys_of (take k es) m)) of
               None \<Rightarrow> Some (Json (without_keys_of (take k es) m))
             | Some err \<Rightarrow> ls))"
    unfolding freeUpSpace_eq [of E targetBytes ls] Let_def
    unfolding m_def [symmetric] es_def [symmetric] k_def [symmetric]
    by (simp only: ne)
  have example:
    "fst (free_loop 5 (Array_sort compare_size_age images_CAB) (images_CAB, 0, False)) =
       [(''https://x/c'', img_C), (''https://x/b'', img_B)]"
    by (simp add: images_CAB_def img_A_def img_B_def img_C_def Array_sort_def
        compare_size_age_def DAY_MS_def t0_def AList.delete_eq)
  from perm srt k_le reach minimal loop exact run
  have "\<exists>k \<le> length m.
      (k = length m \<or> targetBytes \<le> int (freed_by (take k es))) \<and>
      (\<forall>j<k. int (freed_by (take j es)) < targetBytes) \<and>
      fst (free_loop targetBytes es (m, 0, False)) = without_keys_of (take k es) m \<and>
      (distinct (map fst m) \<longrightarrow>
         mset (without_keys_of (take k es) m) + mset (take k es) = mset m) \<and>
      freeUpSpace E targetBytes ls =
        (if k = 0 then ls
         else (case setItem_error E (JSON_stringify (without_keys_of (take k es) m)) of
                 None \<Rightarrow> Some (Json (without_keys_of (take k es) m))
               | Some err \<Rightarrow> ls))"
    by blast
  with perm srt example show ?thesis
    unfolding m_def es_def by blast
qed

theorem freeUpSpace_evicts_minimal_prefix_witness:
  "distinct (map fst images_CAB) \<and>
   freeUpSpace E_online 5 (Some (Json images_CAB)) =
     Some (Json [(''https://x/c'', img_C), (''https://x/b'', img_B)])"
proof -
  let ?sorted = "[(''https://x/a'', img_A), (''https://x/b'', img_B), (''https://x/c'', img_C)]"
  have m: "getStoredImages (Some (Json images_CAB)) = images_CAB"
    by (simp add: getStoredImages_Json)
  have len: "length images_CAB = 3"
    by (simp add: images_CAB_def)
  from freeUpSpace_evicts_minimal_prefix [of "Some (Json images_CAB)" 5 E_online]
  obtain k where k: "k \<le> 3"
    and reach: "k = 3 \<or> 5 \<le> int (freed_by (take k ?sorted))"
    and minimal: "\<forall>j<k. int (freed_by (take j ?sorted)) < 5"
    and run: "freeUpSpace E_online 5 (Some (Json images_CAB)) =
        (if k = 0 then Some (Json images_CAB)
         else (case setItem_error E_online
                      (JSON_stringify (without_keys_of (take k ?sorted) images_CAB)) of
                 None \<Rightarrow> Some (Json (without_keys_of (take k ?sorted) images_CAB))
               | Some err \<Rightarrow> Some (Json images_CAB)))"
    unfolding m sorted_images_CAB len by blast
  have A: "freed_by (take 1 ?sorted) = 5"
    by (simp add: freed_by_def img_A_def)
  have "k \<noteq> 0"
  proof
    assume "k = 0"
    with reach show False by (simp add: freed_by_def)
  qed
  moreover have "\<not> 1 < k"
    using minimal A by auto
  ultimately have "k = 1" by simp
  with run have "freeUpSpace E_online 5 (Some (Json images_CAB)) =
      Some (Json (without_keys_of [(''https://x/a'', img_A)] images_CAB))"
    by (simp add: E_online_def)
  moreover have "without_keys_of [(''https://x/a'', img_A)] images_CAB =
      [(''https://x/c'', img_C), (''https://x/b'', img_B)]"
    by (simp add: without_keys_of_def images_CAB_def)
  moreover have "distinct (map fst images_CAB)"
    by (simp add: images_CAB_def)
  ultimately show ?thesis by simp
qed

subsection \<open>Maintenance cleanup\<close>




subsection \<open>Resolving the same URL twice\<close>

text \<open>
  Claim C8, amended. If the store holds an entry for the URL after the first call of
  \<open>downloadAndStoreImage\<close> (the call found one, or it downloaded the image and the write
  succeeded), then the first call returned the entry's data URL, a second call in any
  environment returns the same data URL and leaves the world, with its log of network
  accesses, as it is, and the first call made at most one \<open>fetch\<close>.
\<close>

theorem resolve_twice_after_persisting:
  "getStoredImage (storage (snd (downloadAndStoreImage E url w))) url = Some e \<longrightarrow>
     fst (downloadAndStoreImage E url w) = localDataUrl e \<and>
     downloadAndStoreImage E' url (snd (downloadAndStoreImage E url w)) =
       (localDataUrl e, snd (downloadAndStoreImage E url w)) \<and>
     (fetched (snd (downloadAndStoreImage E url w)) = fetched w \<or>
      fetched (snd (downloadAndStoreImage E url w)) = fetched w @ [url])"
proof
  assume stored: "getStoredImage (storage (snd (downloadAndStoreImage E url w))) url = Some e"
  then have again: "downloadAndStoreImage E' url (snd (downloadAndStoreImage E url w)) =
       (localDataUrl e, snd (downloadAndStoreImage E url w))"
    by (rule resolve_hit)
  have first: "fst (downloadAndStoreImage E url w) = localDataUrl e \<and>
     (fetched (snd (downloadAndStoreImage E url w)) = fetched w \<or>
      fetched (snd (downloadAndStoreImage E url w)) = fetched w @ [url])"
  proof (cases "getStoredImage (storage w) url")
    case (Some e0)
    with stored show ?thesis by (simp add: resolve_hit)
  next
    case None
    let ?ls1 = "performMaintenanceCleanup E (storage w)"
    let ?w1 = "w\<lparr>storage := ?ls1\<rparr>"
    have miss1: "getStoredImage ?ls1 url = None"
      using maintenance_evicts None by (rule evicted_from_miss)
    show ?thesis
    proof (cases "fst (downloadImageAsDataUrl E url ?w1)")
      case (Inl u)
      with None stored miss1 show ?thesis by (simp add: resolve_miss Let_def)
    next
      case (Inr r)
      show ?thesis
      proof (cases r)
        case None' : None
        with None Inr stored miss1 show ?thesis by (simp add: resolve_miss Let_def)
      next
        case (Some d)
        with Inr have url: "originalUrl d = url"
          using download_Some [of E url ?w1 d] by auto
        obtain b ls' where s: "storeImage E d ?ls1 = (b, ls')"
          by (cases "storeImage E d ?ls1")
        from None Inr Some s have res: "downloadAndStoreImage E url w =
            (localDataUrl d, ?w1\<lparr>fetched := fetched w @ [url], storage := ls'\<rparr>)"
          by (simp add: resolve_miss Let_def)
        from storeImage_outcome [OF s] url
        consider "getStoredImage ls' url = Some d" | "evicted_from ?ls1 ls'" by auto
        then show ?thesis
        proof cases
          case 1
          with stored res show ?thesis by simp
        next
          case 2
          then have "getStoredImage ls' url = None"
            using miss1 by (rule evicted_from_miss)
          with stored res show ?thesis by simp
        qed
      qed
    qed
  qed
  with again show "fst (downloadAndStoreImage E url w) = localDataUrl e \<and>
     downloadAndStoreImage E' url (snd (downloadAndStoreImage E url w)) =
       (localDataUrl e, snd (downloadAndStoreImage E url w)) \<and>
     (fetched (snd (downloadAndStoreImage E url w)) = fetched w \<or>
      fetched (snd (downloadAndStoreImage E url w)) = fetched w @ [url])"
    by simp
qed

theorem resolve_twice_after_persisting_witness:
  "fst (downloadAndStoreImage E_online cat_url w_fresh) = png_dataUrl \<and>
   snd (downloadAndStoreImage E_online cat_url w_fresh) =
     \<lparr>storage = Some (Json [(cat_url, img_new)]), fetched = [cat_url]\<rparr> \<and>
   downloadAndStoreImage E_offline cat_url
       \<lparr>storage = Some (Json [(cat_url, img_new)]), fetched = [cat_url]\<rparr> =
     (png_dataUrl, \<lparr>storage = Some (Json [(cat_url, img_new)]), fetched = [cat_url]\<rparr>)"
proof -
  have "storeImage E_online img_new None = (True, Some (Json [(cat_url, img_new)]))"
    by (simp add: storeImage_empty getStoredImages_None E_online_def img_new_def)
  then have first: "downloadAndStoreImage E_online cat_url w_fresh =
      (png_dataUrl, \<lparr>storage = Some (Json [(cat_url, img_new)]), fetched = [cat_url]\<rparr>)"
    using resolve_example [of E_online "[]"]
    by (simp add: E_online_def w_fresh_def)
  then have "getStoredImage (storage (snd (downloadAndStoreImage E_online cat_url w_fresh)))
      cat_url = Some img_new"
    by (simp add: getStoredImage_def getStoredImages_Json)
  with resolve_twice_after_persisting [of E_online cat_url w_fresh img_new E_offline]
  have "fst (downloadAndStoreImage E_online cat_url w_fresh) = localDataUrl img_new \<and>
     downloadAndStoreImage E_offline cat_url (snd (downloadAndStoreImage E_online cat_url w_fresh)) =
       (localDataUrl img_new, snd (downloadAndStoreImage E_online cat_url w_fresh))"
    by blast
  moreover have "localDataUrl img_new = png_dataUrl"
    by (simp add: img_new_def)
  ultimately show ?thesis
    using first by simp
qed

text \<open>
  Claim C8 as stated fails when the first call cannot persist the entry: with a medium
  that refuses every write, both calls return the payload's data URL, and each of them
  calls \<open>fetch\<close>, so that the log holds two network accesses and the second call was no
  cache hit.
\<close>

theorem resolve_twice_unpersisted_counterexample:
  "downloadAndStoreImage E_full cat_url w_fresh =
     (png_dataUrl, \<lparr>storage = None, fetched = [cat_url]\<rparr>) \<and>
   downloadAndStoreImage E_full cat_url \<lparr>storage = None, fetched = [cat_url]\<rparr> =
     (png_dataUrl, \<lparr>storage = None, fetched = [cat_url, cat_url]\<rparr>)"
proof -
  have "storeImage E_full img_new None = (False, None)"
    by (rule storeImage_refused) (simp add: E_full_def)
  then show ?thesis
    using resolve_example [of E_full "[]"] resolve_example [of E_full "[cat_url]"]
    by (simp add: E_full_def E_online_def w_fresh_def)
qed

subsection \<open>A stored text that does not parse\<close>

text \<open>
  Claim C9, amended. When the text under \<open>fal_local_images\<close> does not parse,
  \<open>getStoredImages\<close>, \<open>getStoredImage\<close> and \<open>getCurrentStorageSize\<close> answer as on an
  empty store, and \<open>getStorageStats\<close> reports no image, no logical size and no dates,
  but its actual storage size is the length of the unreadable text. \<open>storeImage\<close>
  starts from the empty map: if the medium takes the write, the item becomes the map
  with the new entry alone, and otherwise the call fails and the text stays. The two
  eviction routines find nothing to evict and write nothing.
\<close>

theorem unparsable_store_reads_as_empty:
  "getStoredImages (Some (Unparsable s)) = [] \<and>
   getStoredImage (Some (Unparsable s)) url = None \<and>
   getCurrentStorageSize (Some (Unparsable s)) = 0 \<and>
   imageCount (getStorageStats (Some (Unparsable s))) = 0 \<and>
   totalSize (getStorageStats (Some (Unparsable s))) = 0 \<and>
   oldestImage (getStorageStats (Some (Unparsable s))) = None \<and>
   newestImage (getStorageStats (Some (Unparsable s))) = None \<and>
   actualStorageSize (getStorageStats (Some (Unparsable s))) = length s \<and>
   storeImage E d (Some (Unparsable s)) =
     (case setItem_error E (JSON_stringify [(originalUrl d, d)]) of
        None \<Rightarrow> (True, Some (Json [(originalUrl d, d)]))
      | Some err \<Rightarrow> (False, Some (Unparsable s))) \<and>
   cleanupOldImages E maxAge (Some (Unparsable s)) = Some (Unparsable s) \<and>
   freeUpSpace E targetBytes (Some (Unparsable s)) = Some (Unparsable s)"
  by (simp add: getStoredImages_Unparsable getStoredImage_def getCurrentStorageSize_def
      getStorageStats_def getActualStorageSize_def storeImage_empty cleanupOldImages_empty
      freeUpSpace_empty Let_def)

text \<open>
  Claim C9 as stated fails for \<open>getStorageStats\<close>: on the unparsable text \<open>{bad\<close> it
  reports an actual storage size of 4 bytes, which it reports for no empty store (0
  without an item, 2 for the empty map); and on an unparsable text of 52,428,800 bytes
  it reports no image and a usage of 100.
\<close>

theorem unparsable_store_stats_counterexample:
  "actualStorageSize (getStorageStats (Some (Unparsable ''{bad''))) = 4 \<and>
   actualStorageSize (getStorageStats None) = 0 \<and>
   actualStorageSize (getStorageStats (Some (Json []))) = 2 \<and>
   imageCount (getStorageStats (Some (Unparsable (replicate 52428800 CHR ''x'')))) = 0 \<and>
   storageUsagePercent (getStorageStats (Some (Unparsable (replicate 52428800 CHR ''x''))))
     = 100"
  by (simp add: stats_actualStorageSize stats_imageCount stats_storageUsagePercent
      getActualStorageSize_def getStoredImages_Unparsable JSON_stringify_def toFixed_def
      MAX_STORAGE_SIZE_def floor_eq_iff)

subsection \<open>Statistics\<close>


end
